theory Spec2Isabelle
  imports Complex_Main
begin

section \<open>JavaScript values\<close>

text \<open>
  The adapter \<^verbatim>\<open>src/services/ai.ts\<close> handles three kinds of untyped JavaScript values:
  what \<^verbatim>\<open>JSON.parse\<close> returns, what a \<^verbatim>\<open>catch (error: any)\<close> clause receives, and
  the object it resolves to. All three are values of \<open>jsval\<close>: plain data, an object being
  the list of its own enumerable properties in creation order.

  Limits of the representation:
  \<^item> a number is its exact decimal value; rounding to binary64, \<^verbatim>\<open>-0\<close>, \<^verbatim>\<open>NaN\<close> and the
    infinities are not represented;
  \<^item> a string is a list of 8-bit characters, read as the code units U+0000 to U+00FF; a
    JSON escape above \<^verbatim>\<open>00FF\<close> is accepted and keeps its low byte only;
  \<^item> the rule that enumerates array-index keys of an object before its other keys is not
    represented (it changes the order of enumeration only, never a lookup);
  \<^item> an \<^verbatim>\<open>Error\<close> instance is the object holding its \<^verbatim>\<open>message\<close>;
  \<^item> the engine's resource limits (nesting depth, string length) are not represented.
\<close>

datatype jsval =
    JUndefined
  | JNull
  | JBool bool
  | JNum real
  | JStr string
  | JArr "jsval list"
  | JObj "(string \<times> jsval) list"

text \<open>\<^verbatim>\<open>new Error(msg)\<close>, and the \<^verbatim>\<open>TypeError\<close> the runtime throws itself.\<close>

definition Error :: "string \<Rightarrow> jsval" where
  "Error msg = JObj [(''message'', JStr msg)]"

definition TypeError :: "string \<Rightarrow> jsval" where
  "TypeError msg = JObj [(''message'', JStr msg)]"

text \<open>\<^verbatim>\<open>!!v\<close>: the falsy values are \<^verbatim>\<open>undefined\<close>, \<^verbatim>\<open>null\<close>, \<^verbatim>\<open>false\<close>, \<^verbatim>\<open>0\<close> and \<^verbatim>\<open>""\<close>.\<close>

fun truthy :: "jsval \<Rightarrow> bool" where
  "truthy JUndefined = False"
| "truthy JNull = False"
| "truthy (JBool b) = b"
| "truthy (JNum x) = (x \<noteq> 0)"
| "truthy (JStr s) = (s \<noteq> [])"
| "truthy (JArr xs) = True"
| "truthy (JObj ps) = True"

text \<open>\<^verbatim>\<open>a || b\<close>.\<close>

definition or_else :: "jsval \<Rightarrow> jsval \<Rightarrow> jsval" where
  "or_else a b = (if truthy a then a else b)"

fun nullish :: "jsval \<Rightarrow> bool" where
  "nullish JUndefined = True"
| "nullish JNull = True"
| "nullish v = False"

text \<open>
  \<^verbatim>\<open>v.k\<close> for a named key \<open>k\<close> that no prototype supplies: the code reads \<^verbatim>\<open>error\<close> and
  \<^verbatim>\<open>message\<close> only, which a primitive and an array do not have. Reading a property of
  \<^verbatim>\<open>undefined\<close> or \<^verbatim>\<open>null\<close> throws a \<^verbatim>\<open>TypeError\<close>; its wording is the engine's, here
  that of V8.
\<close>

fun lookup :: "string \<Rightarrow> (string \<times> jsval) list \<Rightarrow> jsval" where
  "lookup k [] = JUndefined"
| "lookup k ((k', v) # ps) = (if k = k' then v else lookup k ps)"

fun get_prop :: "jsval \<Rightarrow> string \<Rightarrow> jsval + jsval" where
  "get_prop JUndefined k =
     Inl (TypeError (''Cannot read properties of undefined (reading '' @ [CHR 0x27] @ k @ [CHR 0x27] @ '')''))"
| "get_prop JNull k =
     Inl (TypeError (''Cannot read properties of null (reading '' @ [CHR 0x27] @ k @ [CHR 0x27] @ '')''))"
| "get_prop (JObj ps) k = Inr (lookup k ps)"
| "get_prop v k = Inr JUndefined"

text \<open>\<^verbatim>\<open>v?.k\<close>: \<^verbatim>\<open>undefined\<close> when \<open>v\<close> is \<^verbatim>\<open>undefined\<close> or \<^verbatim>\<open>null\<close>.\<close>

fun get_prop_opt :: "jsval \<Rightarrow> string \<Rightarrow> jsval" where
  "get_prop_opt (JObj ps) k = lookup k ps"
| "get_prop_opt v k = JUndefined"

text \<open>
  Defining a property: an existing key keeps its place and takes the new value, a new key
  goes last.
\<close>

fun set_prop :: "string \<Rightarrow> jsval \<Rightarrow> (string \<times> jsval) list \<Rightarrow> (string \<times> jsval) list" where
  "set_prop k v [] = [(k, v)]"
| "set_prop k v ((k', v') # ps) =
     (if k = k' then (k', v) # ps else (k', v') # set_prop k v ps)"

definition set_props :: "(string \<times> jsval) list \<Rightarrow> (string \<times> jsval) list \<Rightarrow> (string \<times> jsval) list" where
  "set_props ps new = foldl (\<lambda>acc (k, v). set_prop k v acc) ps new"

text \<open>Decimal digits of a natural number: the keys of array elements.\<close>

fun digits_of :: "nat \<Rightarrow> string" where
  "digits_of n =
     (if n < 10 then [char_of (48 + n)] else digits_of (n div 10) @ [char_of (48 + n mod 10)])"

declare digits_of.simps [simp del]

text \<open>
  The own enumerable properties that the spread \<^verbatim>\<open>...v\<close> of an object literal copies:
  those of an object, the elements of an array and the characters of a string under their
  indices, nothing for the other primitives.
\<close>

fun own_props :: "jsval \<Rightarrow> (string \<times> jsval) list" where
  "own_props (JObj ps) = ps"
| "own_props (JArr xs) = zip (map digits_of [0..<length xs]) xs"
| "own_props (JStr s) = zip (map digits_of [0..<length s]) (map (\<lambda>c. JStr [c]) s)"
| "own_props v = []"

section \<open>JSON.parse\<close>

text \<open>
  The grammar of ECMA-404, which \<^verbatim>\<open>JSON.parse\<close> accepts: no reviver is passed. Each
  parser returns the value and the rest of the input, \<open>None\<close> standing for the
  \<^verbatim>\<open>SyntaxError\<close>.
\<close>

definition is_ws :: "char \<Rightarrow> bool" where
  "is_ws c = (c = CHR 0x20 \<or> c = CHR 0x09 \<or> c = CHR 0x0A \<or> c = CHR 0x0D)"

definition skip_ws :: "string \<Rightarrow> string" where
  "skip_ws s = dropWhile is_ws s"

definition is_digit :: "char \<Rightarrow> bool" where
  "is_digit c = (48 \<le> (of_char c :: nat) \<and> (of_char c :: nat) \<le> 57)"

definition digit_val :: "char \<Rightarrow> nat" where
  "digit_val c = of_char c - 48"

definition digits_val :: "string \<Rightarrow> nat" where
  "digits_val ds = foldl (\<lambda>n c. 10 * n + digit_val c) 0 ds"

definition hex_val :: "char \<Rightarrow> nat option" where
  "hex_val c =
     (if is_digit c then Some (of_char c - 48)
      else if 97 \<le> (of_char c :: nat) \<and> (of_char c :: nat) \<le> 102 then Some (of_char c - 87)
      else if 65 \<le> (of_char c :: nat) \<and> (of_char c :: nat) \<le> 70 then Some (of_char c - 55)
      else None)"

definition hex4 :: "char \<Rightarrow> char \<Rightarrow> char \<Rightarrow> char \<Rightarrow> nat option" where
  "hex4 a b c d =
     (case (hex_val a, hex_val b, hex_val c, hex_val d) of
        (Some x, Some y, Some z, Some w) \<Rightarrow> Some (((x * 16 + y) * 16 + z) * 16 + w)
      | _ \<Rightarrow> None)"

definition unescape :: "char \<Rightarrow> char option" where
  "unescape e =
     (if e = CHR 0x22 then Some (CHR 0x22)
      else if e = CHR 0x5C then Some (CHR 0x5C)
      else if e = CHR ''/'' then Some (CHR ''/'')
      else if e = CHR ''b'' then Some (CHR 0x08)
      else if e = CHR ''f'' then Some (CHR 0x0C)
      else if e = CHR ''n'' then Some (CHR 0x0A)
      else if e = CHR ''r'' then Some (CHR 0x0D)
      else if e = CHR ''t'' then Some (CHR 0x09)
      else None)"

text \<open>
  The characters of a string after its opening quote, up to the closing one. An escape
  \<^verbatim>\<open>\uXXXX\<close> above \<^verbatim>\<open>00FF\<close> is accepted as \<^verbatim>\<open>JSON.parse\<close> accepts it; the character
  stored keeps its low byte.
\<close>

fun parse_chars :: "string \<Rightarrow> (string \<times> string) option" where
  "parse_chars [] = None"
| "parse_chars (c # cs) =
     (if c = CHR 0x22 then Some ([], cs)
      else if c = CHR 0x5C then
        (case cs of
           [] \<Rightarrow> None
         | e # r \<Rightarrow>
             if e = CHR ''u'' then
               (case r of
                  h1 # h2 # h3 # h4 # r' \<Rightarrow>
                    (case hex4 h1 h2 h3 h4 of
                       None \<Rightarrow> None
                     | Some n \<Rightarrow> map_option (apfst ((#) (char_of n))) (parse_chars r'))
                | _ \<Rightarrow> None)
             else
               (case unescape e of
                  None \<Rightarrow> None
                | Some ch \<Rightarrow> map_option (apfst ((#) ch)) (parse_chars r)))
      else if (of_char c :: nat) < 0x20 then None
      else map_option (apfst ((#) c)) (parse_chars cs))"

text \<open>
  A number: \<^verbatim>\<open>-? (0 | [1-9][0-9]*) (. [0-9]+)? ([eE] [+-]? [0-9]+)?\<close>.
\<close>

definition parse_int_part :: "string \<Rightarrow> (string \<times> string) option" where
  "parse_int_part s =
     (case s of
        [] \<Rightarrow> None
      | c # cs \<Rightarrow>
          if c = CHR ''0'' then Some ([c], cs)
          else if is_digit c then Some (takeWhile is_digit s, dropWhile is_digit s)
          else None)"

definition parse_frac :: "string \<Rightarrow> (string \<times> string) option" where
  "parse_frac s =
     (case s of
        [] \<Rightarrow> Some ([], s)
      | c # cs \<Rightarrow>
          if c = CHR ''.'' then
            (if takeWhile is_digit cs = [] then None
             else Some (takeWhile is_digit cs, dropWhile is_digit cs))
          else Some ([], s))"

definition parse_exp :: "string \<Rightarrow> ((bool \<times> nat) \<times> string) option" where
  "parse_exp s =
     (case s of
        [] \<Rightarrow> Some ((False, 0), s)
      | c # cs \<Rightarrow>
          if c = CHR ''e'' \<or> c = CHR ''E'' then
            (let (neg, ds) =
               (case cs of
                  [] \<Rightarrow> (False, cs)
                | g # gs \<Rightarrow>
                    if g = CHR ''-'' then (True, gs)
                    else if g = CHR ''+'' then (False, gs)
                    else (False, cs))
             in if takeWhile is_digit ds = [] then None
                else Some ((neg, digits_val (takeWhile is_digit ds)), dropWhile is_digit ds))
          else Some ((False, 0), s))"

definition parse_number :: "string \<Rightarrow> (real \<times> string) option" where
  "parse_number s =
     (let (neg, s1) = (case s of [] \<Rightarrow> (False, s) | c # cs \<Rightarrow> if c = CHR ''-'' then (True, cs) else (False, s))
      in case parse_int_part s1 of
           None \<Rightarrow> None
         | Some (ip, s2) \<Rightarrow>
             (case parse_frac s2 of
                None \<Rightarrow> None
              | Some (fp, s3) \<Rightarrow>
                  (case parse_exp s3 of
                     None \<Rightarrow> None
                   | Some ((eneg, e), s4) \<Rightarrow>
                       let m = real (digits_val ip) + real (digits_val fp) / 10 ^ length fp;
                           x = (if eneg then m / 10 ^ e else m * 10 ^ e)
                       in Some (if neg then - x else x, s4))))"

text \<open>What the termination of the value parser rests on.\<close>

lemma parse_chars_length: "parse_chars s = Some (x, r) \<Longrightarrow> length r < length s"
proof (induction s arbitrary: x r rule: parse_chars.induct)
  case 1
  then show ?case by simp
next
  case (2 c cs)
  then show ?case
    by (fastforce split: if_splits list.splits option.splits)
qed

lemma skip_ws_length: "length (skip_ws s) \<le> length s"
  by (simp add: skip_ws_def length_dropWhile_le)

text \<open>
  Values, array elements and object members. A later member of a repeated key overwrites
  the earlier one. The two tests \<open>length _ < length s\<close> compare the input left after a
  value with the input before it: they make the recursion well-founded and never fail
  (\<open>parse_value_consumes\<close> below).
\<close>

function parse_value :: "string \<Rightarrow> (jsval \<times> string) option"
  and parse_elements :: "string \<Rightarrow> (jsval list \<times> string) option"
  and parse_members :: "string \<Rightarrow> ((string \<times> jsval) list \<times> string) option"
where
  "parse_value s =
     (case skip_ws s of
        [] \<Rightarrow> None
      | c # cs \<Rightarrow>
          if c = CHR ''{'' then
            (case skip_ws cs of
               [] \<Rightarrow> None
             | d # ds \<Rightarrow>
                 if d = CHR ''}'' then Some (JObj [], ds)
                 else map_option (apfst (\<lambda>ms. JObj (set_props [] ms))) (parse_members cs))
          else if c = CHR ''['' then
            (case skip_ws cs of
               [] \<Rightarrow> None
             | d # ds \<Rightarrow>
                 if d = CHR '']'' then Some (JArr [], ds)
                 else map_option (apfst JArr) (parse_elements cs))
          else if c = CHR 0x22 then map_option (apfst JStr) (parse_chars cs)
          else if take 4 (c # cs) = ''null'' then Some (JNull, drop 4 (c # cs))
          else if take 4 (c # cs) = ''true'' then Some (JBool True, drop 4 (c # cs))
          else if take 5 (c # cs) = ''false'' then Some (JBool False, drop 5 (c # cs))
          else map_option (apfst JNum) (parse_number (c # cs)))"
| "parse_elements s =
     (case parse_value s of
        None \<Rightarrow> None
      | Some (v, r) \<Rightarrow>
          (case skip_ws r of
             [] \<Rightarrow> None
           | c # cs \<Rightarrow>
               if c = CHR '']'' then Some ([v], cs)
               else if c = CHR '','' \<and> length cs < length s
                 then map_option (apfst ((#) v)) (parse_elements cs)
               else None))"
| "parse_members s =
     (case skip_ws s of
        [] \<Rightarrow> None
      | q # ks \<Rightarrow>
          if q \<noteq> CHR 0x22 then None
          else
            (case parse_chars ks of
               None \<Rightarrow> None
             | Some (k, r) \<Rightarrow>
                 (case skip_ws r of
                    [] \<Rightarrow> None
                  | c # vs \<Rightarrow>
                      if c \<noteq> CHR '':'' then None
                      else
                        (case parse_value vs of
                           None \<Rightarrow> None
                         | Some (v, r') \<Rightarrow>
                             (case skip_ws r' of
                                [] \<Rightarrow> None
                              | d # ms \<Rightarrow>
                                  if d = CHR ''}'' then Some ([(k, v)], ms)
                                  else if d = CHR '','' \<and> length ms < length s
                                    then map_option (apfst ((#) (k, v))) (parse_members ms)
                                  else None)))))"
  by pat_completeness auto

termination
proof (relation "measure (\<lambda>x. case x of Inl s \<Rightarrow> 2 * length s
                                  | Inr (Inl s) \<Rightarrow> 2 * length s + 1
                                  | Inr (Inr s) \<Rightarrow> 2 * length s + 1)", goal_cases)
  case 1
  then show ?case by simp
next
  case (2 s c cs d ds)
  have "length (skip_ws s) \<le> length s" by (rule skip_ws_length)
  with 2 show ?case by simp
next
  case (3 s c cs d ds)
  have "length (skip_ws s) \<le> length s" by (rule skip_ws_length)
  with 3 show ?case by simp
next
  case (4 s)
  then show ?case by simp
next
  case (5 s)
  then show ?case by simp
next
  case (6 s q ks x k r c vs)
  have a: "length (skip_ws s) \<le> length s" by (rule skip_ws_length)
  have b: "length (skip_ws r) \<le> length r" by (rule skip_ws_length)
  have c: "length r < length ks" using 6 by (auto dest: parse_chars_length)
  from 6 a b c show ?case by simp
next
  case (7 s)
  then show ?case by simp
qed

definition JSON_parse :: "string \<Rightarrow> jsval option" where
  "JSON_parse text =
     (case parse_value text of
        None \<Rightarrow> None
      | Some (v, r) \<Rightarrow> if skip_ws r = [] then Some v else None)"

section \<open>String conversion\<close>

text \<open>
  \<^verbatim>\<open>`${v}`\<close>: the conversion a template literal applies. The digits of a number are the
  runtime's choice and are taken as the parameter \<open>num\<close>. An array joins its elements with
  commas, \<^verbatim>\<open>undefined\<close> and \<^verbatim>\<open>null\<close> elements being empty. An object is
  \<^verbatim>\<open>[object Object]\<close>, unless a property \<^verbatim>\<open>toString\<close> of its own, which as data is not
  callable, hides the inherited method: then the conversion throws.
\<close>

fun ToString :: "(real \<Rightarrow> string) \<Rightarrow> jsval \<Rightarrow> jsval + string"
  and join :: "(real \<Rightarrow> string) \<Rightarrow> jsval list \<Rightarrow> jsval + string"
where
  "ToString num JUndefined = Inr ''undefined''"
| "ToString num JNull = Inr ''null''"
| "ToString num (JBool b) = Inr (if b then ''true'' else ''false'')"
| "ToString num (JNum x) = Inr (num x)"
| "ToString num (JStr s) = Inr s"
| "ToString num (JArr xs) = join num xs"
| "ToString num (JObj ps) =
     (if ''toString'' \<in> set (map fst ps)
      then Inl (TypeError ''Cannot convert object to primitive value'')
      else Inr ''[object Object]'')"
| "join num [] = Inr []"
| "join num (x # xs) =
     (case (if nullish x then Inr [] else ToString num x) of
        Inl e \<Rightarrow> Inl e
      | Inr s \<Rightarrow>
          if xs = [] then Inr s
          else (case join num xs of Inl e \<Rightarrow> Inl e | Inr t \<Rightarrow> Inr (s @ '','' @ t)))"

section \<open>The request and the providers\<close>

text \<open>\<^verbatim>\<open>ResearchConfig\<close> of \<^verbatim>\<open>src/types.ts\<close>; \<^verbatim>\<open>temperature\<close> is optional.\<close>

record ResearchConfig =
  apiKey :: string
  provider :: string
  model :: string
  temperature :: "real option"
  query :: string
  maxDepth :: int
  maxBranches :: int

text \<open>\<^verbatim>\<open>s || d\<close> on a string and \<^verbatim>\<open>x || d\<close> on an optional number.\<close>

definition str_or :: "string \<Rightarrow> string \<Rightarrow> string" where
  "str_or s d = (if s = [] then d else s)"

definition num_or :: "real option \<Rightarrow> real \<Rightarrow> real" where
  "num_or x d = (case x of None \<Rightarrow> d | Some t \<Rightarrow> if t = 0 then d else t)"

text \<open>
  What the adapter hands to the OpenAI client: the options of \<^verbatim>\<open>new OpenAI\<close> and the
  body of \<^verbatim>\<open>chat.completions.create\<close>.
\<close>

record openai_request =
  oa_apiKey :: string
  oa_dangerouslyAllowBrowser :: bool
  oa_model :: string
  oa_messages :: "(string \<times> string) list"
  oa_functions :: "(string \<times> jsval) list"
  oa_function_call :: string

definition response_schema :: jsval where
  "response_schema =
     JObj [(''type'', JStr ''object''),
           (''properties'',
              JObj [(''answer'', JObj [(''type'', JStr ''string'')]),
                    (''followUpQuestions'',
                       JObj [(''type'', JStr ''array''), (''items'', JObj [(''type'', JStr ''string'')])]),
                    (''confidence'', JObj [(''type'', JStr ''number'')])]),
           (''required'', JArr [JStr ''answer'', JStr ''followUpQuestions'', JStr ''confidence''])]"

definition openai_request_of :: "ResearchConfig \<Rightarrow> openai_request" where
  "openai_request_of config =
     \<lparr> oa_apiKey = apiKey config,
       oa_dangerouslyAllowBrowser = True,
       oa_model = str_or (model config) ''gpt-4-0125-preview'',
       oa_messages =
         [(''system'', ''You are a research assistant. Analyze the query deeply and provide a comprehensive answer with follow-up questions for deeper exploration.''),
          (''user'', query config)],
       oa_functions = [(''provide_research_response'', response_schema)],
       oa_function_call = ''provide_research_response'' \<rparr>"

text \<open>What the response of \<^verbatim>\<open>chat.completions.create\<close> is read for.\<close>

record FunctionCall =
  arguments :: string

record ChatCompletionMessage =
  function_call :: "FunctionCall option"

record Choice =
  message :: ChatCompletionMessage

record ChatCompletion =
  choices :: "Choice list"

text \<open>
  What the adapter hands to the Gemini client: the key of \<^verbatim>\<open>new GoogleGenerativeAI\<close>, the
  model of \<^verbatim>\<open>getGenerativeModel\<close> and the argument of \<^verbatim>\<open>generateContent\<close>.
\<close>

record GenerationConfig =
  gc_temperature :: real
  topP :: real
  topK :: real

record gemini_request =
  gm_apiKey :: string
  gm_model :: string
  gm_contents :: "(string \<times> string list) list"
  generationConfig :: GenerationConfig
  safetySettings :: "(string \<times> string) list"

definition systemPrompt :: string where
  \<open>systemPrompt =
     ''You are a research assistant. Your task is to:\<newline>'' @
     ''1. Analyze the query deeply\<newline>'' @
     ''2. Provide a comprehensive answer\<newline>'' @
     ''3. Generate relevant follow-up questions\<newline>'' @
     ''4. Format your response as JSON with this structure:\<newline>'' @
     ''{\<newline>'' @
     ''  "answer": "your detailed answer",\<newline>'' @
     ''  "followUpQuestions": ["question 1", "question 2", "question 3"],\<newline>'' @
     ''  "confidence": 0.95\<newline>'' @
     ''}''\<close>

definition gemini_request_of :: "ResearchConfig \<Rightarrow> gemini_request" where
  "gemini_request_of config =
     \<lparr> gm_apiKey = apiKey config,
       gm_model = str_or (model config) ''gemini-pro'',
       gm_contents = [(''user'', [systemPrompt @ ''\<newline>\<newline>Query: '' @ query config])],
       generationConfig =
         \<lparr> gc_temperature = num_or (temperature config) (7 / 10), topP = 95 / 100, topK = 40 \<rparr>,
       safetySettings =
         [(''HARM_CATEGORY_HARASSMENT'', ''BLOCK_MEDIUM_AND_ABOVE''),
          (''HARM_CATEGORY_HATE_SPEECH'', ''BLOCK_MEDIUM_AND_ABOVE''),
          (''HARM_CATEGORY_SEXUALLY_EXPLICIT'', ''BLOCK_MEDIUM_AND_ABOVE''),
          (''HARM_CATEGORY_DANGEROUS_CONTENT'', ''BLOCK_MEDIUM_AND_ABOVE'')] \<rparr>"

text \<open>
  \<^verbatim>\<open>result.response.text()\<close> returns the text or throws (a blocked response does).
\<close>

record GenerateContentResult =
  response_text :: "jsval + string"

text \<open>
  Everything outside the repository: the two provider clients, each a function from the
  request to what awaiting it gives (\<open>Inl\<close> a thrown value, \<open>Inr\<close> the response), and the
  runtime's printing of numbers.
\<close>

record env =
  Number_toString :: "real \<Rightarrow> string"
  chat_completions_create :: "openai_request \<Rightarrow> jsval + ChatCompletion"
  generateContent :: "gemini_request \<Rightarrow> jsval + GenerateContentResult"

datatype provider_call =
    OpenAI_create openai_request
  | Gemini_generateContent gemini_request

section \<open>The adapter\<close>

text \<open>
  \<^verbatim>\<open>{ query: config.query, ...result }\<close>: the property \<^verbatim>\<open>query\<close> is defined first, then
  the own properties of the parsed value are copied over it in their order.
\<close>

definition spread_result :: "string \<Rightarrow> jsval \<Rightarrow> jsval" where
  "spread_result q result = JObj (set_props [(''query'', JStr q)] (own_props result))"

text \<open>
  Each function returns the provider calls it made, then \<open>Inl\<close> the value its promise
  rejects with or \<open>Inr\<close> the value it resolves to.
\<close>

definition performOpenAIResearch :: "env \<Rightarrow> ResearchConfig \<Rightarrow> provider_call list \<times> (jsval + jsval)" where
  "performOpenAIResearch h config =
     (let request = openai_request_of config in
      ([OpenAI_create request],
       case chat_completions_create h request of
         Inl thrown \<Rightarrow> Inl thrown
       | Inr response \<Rightarrow>
           (case choices response of
              [] \<Rightarrow> Inl (TypeError (''Cannot read properties of undefined (reading '' @ [CHR 0x27] @ ''message'' @ [CHR 0x27] @ '')''))
            | choice # _ \<Rightarrow>
                (case function_call (message choice) of
                   None \<Rightarrow> Inl (Error ''No response received from the model'')
                 | Some functionCall \<Rightarrow>
                     (case JSON_parse (arguments functionCall) of
                        None \<Rightarrow> Inl (Error ''Failed to parse model response'')
                      | Some result \<Rightarrow> Inr (spread_result (query config) result))))))"

text \<open>The outer \<^verbatim>\<open>catch\<close> of \<^verbatim>\<open>performGeminiResearch\<close> (line 130).\<close>

definition gemini_catch :: "env \<Rightarrow> jsval \<Rightarrow> jsval" where
  "gemini_catch h error =
     (case get_prop error ''message'' of
        Inl thrown \<Rightarrow> thrown
      | Inr m \<Rightarrow>
          (case ToString (Number_toString h) m of
             Inl thrown \<Rightarrow> thrown
           | Inr s \<Rightarrow> Error (''Gemini API Error: '' @ s)))"

definition performGeminiResearch :: "env \<Rightarrow> ResearchConfig \<Rightarrow> provider_call list \<times> (jsval + jsval)" where
  "performGeminiResearch h config =
     (let request = gemini_request_of config in
      ([Gemini_generateContent request],
       case
         (case generateContent h request of
            Inl thrown \<Rightarrow> Inl thrown
          | Inr result \<Rightarrow>
              (case response_text result of
                 Inl thrown \<Rightarrow> Inl thrown
               | Inr txt \<Rightarrow>
                   (case JSON_parse txt of
                      None \<Rightarrow> Inl (Error ''Failed to parse Gemini response. The model did not return valid JSON.'')
                    | Some parsed \<Rightarrow> Inr (spread_result (query config) parsed))))
       of
         Inl error \<Rightarrow> Inl (gemini_catch h error)
       | Inr v \<Rightarrow> Inr v))"

text \<open>
  \<^verbatim>\<open>error.error?.message || error.message || 'Unknown error occurred'\<close> (line 13).
\<close>

definition errorMessage :: "jsval \<Rightarrow> jsval + jsval" where
  "errorMessage error =
     (case get_prop error ''error'' of
        Inl thrown \<Rightarrow> Inl thrown
      | Inr inner \<Rightarrow>
          (case get_prop error ''message'' of
             Inl thrown \<Rightarrow> Inl thrown
           | Inr m \<Rightarrow>
               Inr (or_else (or_else (get_prop_opt inner ''message'') m) (JStr ''Unknown error occurred''))))"

text \<open>The \<^verbatim>\<open>catch\<close> of \<^verbatim>\<open>performResearch\<close> (lines 12 to 15).\<close>

definition research_catch :: "env \<Rightarrow> jsval \<Rightarrow> jsval" where
  "research_catch h error =
     (case errorMessage error of
        Inl thrown \<Rightarrow> thrown
      | Inr m \<Rightarrow>
          (case ToString (Number_toString h) m of
             Inl thrown \<Rightarrow> thrown
           | Inr s \<Rightarrow> Error (''API Error: '' @ s)))"

definition performResearch :: "env \<Rightarrow> ResearchConfig \<Rightarrow> provider_call list \<times> (jsval + jsval)" where
  "performResearch h config =
     (let (calls, outcome) =
            (if provider config = ''openai'' then performOpenAIResearch h config
             else performGeminiResearch h config)
      in (calls, case outcome of Inl error \<Rightarrow> Inl (research_catch h error) | Inr v \<Rightarrow> Inr v))"

section \<open>Sample requests and providers\<close>

text \<open>
  A request with the temperature, depth and branches that the form of \<^verbatim>\<open>App.tsx\<close> starts
  from, and three providers: a Gemini client that answers with a given text, an OpenAI
  client that answers with one choice holding a given function call, and an OpenAI client
  whose call throws a given value. No number is converted to a string with them, so their
  \<open>Number_toString\<close> is arbitrary.
\<close>

definition app_config :: "string \<Rightarrow> string \<Rightarrow> ResearchConfig" where
  "app_config p q =
     \<lparr> apiKey = ''sk-test'', provider = p, model = '''', temperature = Some (7 / 10),
       query = q, maxDepth = 3, maxBranches = 3 \<rparr>"

definition gemini_returns :: "string \<Rightarrow> env" where
  "gemini_returns txt =
     \<lparr> Number_toString = (\<lambda>x. ''0''),
       chat_completions_create = (\<lambda>request. Inl JUndefined),
       generateContent = (\<lambda>request. Inr \<lparr> response_text = Inr txt \<rparr>) \<rparr>"

definition openai_returns :: "FunctionCall option \<Rightarrow> env" where
  "openai_returns fc =
     \<lparr> Number_toString = (\<lambda>x. ''0''),
       chat_completions_create =
         (\<lambda>request. Inr \<lparr> choices = [\<lparr> message = \<lparr> function_call = fc \<rparr> \<rparr>] \<rparr>),
       generateContent = (\<lambda>request. Inl JUndefined) \<rparr>"

definition openai_throws :: "jsval \<Rightarrow> env" where
  "openai_throws thrown =
     \<lparr> Number_toString = (\<lambda>x. ''0''),
       chat_completions_create = (\<lambda>request. Inl thrown),
       generateContent = (\<lambda>request. Inl JUndefined) \<rparr>"

section \<open>The parser consumes its input\<close>

text \<open>
  Every parser returns strictly less input than it was given, so the two length tests in
  \<open>parse_elements\<close> and \<open>parse_members\<close> always succeed and can be dropped.
\<close>

lemma parse_int_part_length: "parse_int_part s = Some (ds, r) \<Longrightarrow> length r < length s"
proof (cases s)
  case Nil
  assume "parse_int_part s = Some (ds, r)"
  with Nil show ?thesis by (simp add: parse_int_part_def)
next
  case (Cons c cs)
  assume a: "parse_int_part s = Some (ds, r)"
  have "length (dropWhile is_digit cs) \<le> length cs" by (rule length_dropWhile_le)
  with a Cons show ?thesis
    by (auto simp: parse_int_part_def split: if_splits)
qed

lemma parse_frac_length: "parse_frac s = Some (ds, r) \<Longrightarrow> length r \<le> length s"
proof (cases s)
  case Nil
  assume "parse_frac s = Some (ds, r)"
  with Nil show ?thesis by (simp add: parse_frac_def)
next
  case (Cons c cs)
  assume a: "parse_frac s = Some (ds, r)"
  have "length (dropWhile is_digit cs) \<le> length cs" by (rule length_dropWhile_le)
  with a Cons show ?thesis
    by (auto simp: parse_frac_def split: if_splits)
qed

lemma parse_exp_length: "parse_exp s = Some (e, r) \<Longrightarrow> length r \<le> length s"
proof (cases s)
  case Nil
  assume "parse_exp s = Some (e, r)"
  with Nil show ?thesis by (simp add: parse_exp_def)
next
  case (Cons c cs)
  assume a: "parse_exp s = Some (e, r)"
  have d: "\<And>xs. length (dropWhile is_digit xs) \<le> length xs" by (rule length_dropWhile_le)
  show ?thesis
  proof (cases cs)
    case Nil
    with a Cons show ?thesis by (auto simp: parse_exp_def split: if_splits)
  next
    case (Cons g gs)
    with a \<open>s = c # cs\<close> d [of gs] d [of "g # gs"] show ?thesis
      by (auto simp: parse_exp_def Let_def split: if_splits)
  qed
qed

lemma parse_number_length: "parse_number s = Some (x, r) \<Longrightarrow> length r < length s"
proof -
  assume a: "parse_number s = Some (x, r)"
  obtain neg s1 where ns: "(case s of [] \<Rightarrow> (False, s) | c # cs \<Rightarrow> if c = CHR ''-'' then (True, cs) else (False, s)) = (neg, s1)"
    by (cases "(case s of [] \<Rightarrow> (False, s) | c # cs \<Rightarrow> if c = CHR ''-'' then (True, cs) else (False, s))") auto
  then have l1: "length s1 \<le> length s" by (auto split: list.splits if_splits)
  from a ns obtain ip s2 where i: "parse_int_part s1 = Some (ip, s2)"
    by (auto simp: parse_number_def split: option.splits)
  from a ns i obtain fp s3 where f: "parse_frac s2 = Some (fp, s3)"
    by (auto simp: parse_number_def split: option.splits)
  from a ns i f obtain e s4 where e: "parse_exp s3 = Some (e, s4)"
    by (auto simp: parse_number_def split: option.splits)
  from a ns i f e have "r = s4"
    by (cases e) (auto simp: parse_number_def Let_def)
  with l1 parse_int_part_length [OF i] parse_frac_length [OF f] parse_exp_length [OF e]
  show ?thesis by simp
qed

lemma parse_consumes:
  "(\<forall>v r. parse_value s = Some (v, r) \<longrightarrow> length r < length s) \<and> True"
  and "(\<forall>vs r. parse_elements s1 = Some (vs, r) \<longrightarrow> length r < length s1) \<and> True"
  and "(\<forall>ms r. parse_members s2 = Some (ms, r) \<longrightarrow> length r < length s2) \<and> True"
proof (induction s and s1 and s2 rule: parse_value_parse_elements_parse_members.induct)
  case (1 s)
  have w: "\<And>x. length (skip_ws x) \<le> length x" by (rule skip_ws_length)
  show ?case
  proof (intro conjI allI impI TrueI)
    fix v r
    assume a: "parse_value s = Some (v, r)"
    show "length r < length s"
    proof (cases "skip_ws s")
      case Nil
      with a show ?thesis by (simp add: parse_value.simps [of s])
    next
      case (Cons c cs)
      note sc = Cons
      have ls: "Suc (length cs) \<le> length s" using w [of s] Cons by simp
      consider (obj) "c = CHR ''{''" | (arr) "c \<noteq> CHR ''{''" "c = CHR ''[''"
        | (other) "c \<noteq> CHR ''{''" "c \<noteq> CHR ''[''" by blast
      then show ?thesis
      proof cases
        case obj
        show ?thesis
        proof (cases "skip_ws cs")
          case Nil
          with a sc obj show ?thesis by (simp add: parse_value.simps [of s])
        next
          case (Cons d ds)
          have ld: "Suc (length ds) \<le> length cs" using w [of cs] Cons by simp
          show ?thesis
          proof (cases "d = CHR ''}''")
            case True
            with a sc obj Cons ld ls show ?thesis by (simp add: parse_value.simps [of s])
          next
            case False
            from a sc obj Cons False obtain ms where "parse_members cs = Some (ms, r)"
              by (auto simp: parse_value.simps [of s])
            with "1.IH"(1) [OF sc obj Cons False] ls show ?thesis by auto
          qed
        qed
      next
        case arr
        show ?thesis
        proof (cases "skip_ws cs")
          case Nil
          with a sc arr show ?thesis by (simp add: parse_value.simps [of s])
        next
          case (Cons d ds)
          have ld: "Suc (length ds) \<le> length cs" using w [of cs] Cons by simp
          show ?thesis
          proof (cases "d = CHR '']''")
            case True
            with a sc arr Cons ld ls show ?thesis by (simp add: parse_value.simps [of s])
          next
            case False
            from a sc arr Cons False obtain vs where "parse_elements cs = Some (vs, r)"
              by (auto simp: parse_value.simps [of s])
            with "1.IH"(2) [OF sc arr(1) arr(2) Cons False] ls show ?thesis by auto
          qed
        qed
      next
        case other
        from a sc other ls show ?thesis
          by (auto simp: parse_value.simps [of s] split: if_splits
                   dest!: parse_chars_length parse_number_length)
      qed
    qed
  qed
next
  case (2 s)
  have w: "\<And>x. length (skip_ws x) \<le> length x" by (rule skip_ws_length)
  show ?case
  proof (intro conjI allI impI TrueI)
    fix vs r
    assume a: "parse_elements s = Some (vs, r)"
    from a obtain v r0 where v: "parse_value s = Some (v, r0)"
      by (auto simp: parse_elements.simps [of s] split: option.splits)
    with "2.IH"(1) have l0: "length r0 < length s" by auto
    from a v obtain c cs where c: "skip_ws r0 = c # cs"
      by (cases "skip_ws r0") (auto simp: parse_elements.simps [of s])
    have lc: "Suc (length cs) \<le> length r0" using w [of r0] c by simp
    show "length r < length s"
    proof (cases "c = CHR '']''")
      case True
      with a v c lc l0 show ?thesis by (auto simp: parse_elements.simps [of s])
    next
      case False
      with a v c have g: "c = CHR '',''" "length cs < length s"
        by (auto simp: parse_elements.simps [of s] split: if_splits)
      with a v c False obtain ws where "parse_elements cs = Some (ws, r)"
        by (auto simp: parse_elements.simps [of s])
      with "2.IH"(2) [OF v refl c False] g show ?thesis by auto
    qed
  qed
next
  case (3 s)
  have w: "\<And>x. length (skip_ws x) \<le> length x" by (rule skip_ws_length)
  show ?case
  proof (intro conjI allI impI TrueI)
    fix ms r
    assume a: "parse_members s = Some (ms, r)"
    from a obtain q ks where q: "skip_ws s = q # ks"
      by (cases "skip_ws s") (auto simp: parse_members.simps [of s])
    from a q have qq: "\<not> q \<noteq> CHR 0x22"
      by (auto simp: parse_members.simps [of s] split: if_splits)
    from a q qq obtain k r1 where k: "parse_chars ks = Some (k, r1)"
      by (auto simp: parse_members.simps [of s] split: option.splits)
    from a q qq k obtain c vs where c: "skip_ws r1 = c # vs"
      by (cases "skip_ws r1") (auto simp: parse_members.simps [of s])
    from a q qq k c have cc: "\<not> c \<noteq> CHR '':''"
      by (auto simp: parse_members.simps [of s] split: if_splits)
    from a q qq k c cc obtain v r2 where v: "parse_value vs = Some (v, r2)"
      by (auto simp: parse_members.simps [of s] split: option.splits)
    from a q qq k c cc v obtain d rest where d: "skip_ws r2 = d # rest"
      by (cases "skip_ws r2") (auto simp: parse_members.simps [of s])
    have l1: "Suc (length ks) \<le> length s" using w [of s] q by simp
    have l2: "length r1 < length ks" using k by (rule parse_chars_length)
    have l3: "Suc (length vs) \<le> length r1" using w [of r1] c by simp
    have l4: "length r2 < length vs"
      using "3.IH"(1) [OF q qq k refl c cc] v by auto
    have l5: "Suc (length rest) \<le> length r2" using w [of r2] d by simp
    show "length r < length s"
    proof (cases "d = CHR ''}''")
      case True
      with a q qq k c cc v d l1 l2 l3 l4 l5 show ?thesis
        by (auto simp: parse_members.simps [of s])
    next
      case False
      with a q qq k c cc v d have g: "d = CHR '',''" "length rest < length s"
        by (auto simp: parse_members.simps [of s] split: if_splits)
      with a q qq k c cc v d False obtain ms' where "parse_members rest = Some (ms', r)"
        by (auto simp: parse_members.simps [of s])
      with "3.IH"(2) [OF q qq k refl c cc v refl d False] g show ?thesis by auto
    qed
  qed
qed

lemma parse_value_consumes: "parse_value s = Some (v, r) \<Longrightarrow> length r < length s"
  using parse_consumes(1) [of s] by blast

lemma parse_elements_unguarded:
  "parse_elements s =
     (case parse_value s of
        None \<Rightarrow> None
      | Some (v, r) \<Rightarrow>
          (case skip_ws r of
             [] \<Rightarrow> None
           | c # cs \<Rightarrow>
               if c = CHR '']'' then Some ([v], cs)
               else if c = CHR '','' then map_option (apfst ((#) v)) (parse_elements cs)
               else None))"
proof (cases "parse_value s")
  case None
  then show ?thesis by (simp add: parse_elements.simps [of s])
next
  case (Some a)
  obtain v r where a: "a = (v, r)" by (cases a)
  have l: "length r < length s" using Some a parse_value_consumes by blast
  show ?thesis
  proof (cases "skip_ws r")
    case Nil
    with Some a show ?thesis by (simp add: parse_elements.simps [of s])
  next
    case (Cons c cs)
    have "Suc (length cs) \<le> length r" using skip_ws_length [of r] Cons by simp
    with l have "length cs < length s" by simp
    with Some a Cons show ?thesis by (simp add: parse_elements.simps [of s])
  qed
qed

lemma parse_members_unguarded:
  "parse_members s =
     (case skip_ws s of
        [] \<Rightarrow> None
      | q # ks \<Rightarrow>
          if q \<noteq> CHR 0x22 then None
          else
            (case parse_chars ks of
               None \<Rightarrow> None
             | Some (k, r) \<Rightarrow>
                 (case skip_ws r of
                    [] \<Rightarrow> None
                  | c # vs \<Rightarrow>
                      if c \<noteq> CHR '':'' then None
                      else
                        (case parse_value vs of
                           None \<Rightarrow> None
                         | Some (v, r') \<Rightarrow>
                             (case skip_ws r' of
                                [] \<Rightarrow> None
                              | d # ms \<Rightarrow>
                                  if d = CHR ''}'' then Some ([(k, v)], ms)
                                  else if d = CHR '','' then map_option (apfst ((#) (k, v))) (parse_members ms)
                                  else None)))))"
  (is "_ = ?rhs")
proof (cases "skip_ws s")
  case Nil
  then show ?thesis by (simp add: parse_members.simps [of s])
next
  case q: (Cons q ks)
  show ?thesis
  proof (cases "parse_chars ks")
    case None
    with q show ?thesis by (simp add: parse_members.simps [of s])
  next
    case (Some a)
    obtain k r where k: "parse_chars ks = Some (k, r)" using Some by (cases a) simp
    show ?thesis
    proof (cases "skip_ws r")
      case Nil
      with q k show ?thesis by (simp add: parse_members.simps [of s])
    next
      case c: (Cons c vs)
      show ?thesis
      proof (cases "parse_value vs")
        case None
        with q k c show ?thesis by (simp add: parse_members.simps [of s])
      next
        case (Some b)
        obtain v r' where v: "parse_value vs = Some (v, r')" using Some by (cases b) simp
        show ?thesis
        proof (cases "skip_ws r'")
          case Nil
          with q k c v show ?thesis by (simp add: parse_members.simps [of s])
        next
          case d: (Cons d ms)
          have "Suc (length ks) \<le> length s" using skip_ws_length [of s] q by simp
          moreover have "length r < length ks" using k by (rule parse_chars_length)
          moreover have "Suc (length vs) \<le> length r" using skip_ws_length [of r] c by simp
          moreover have "length r' < length vs" using v by (rule parse_value_consumes)
          moreover have "Suc (length ms) \<le> length r'" using skip_ws_length [of r'] d by simp
          ultimately have "length ms < length s" by simp
          with q k c v d show ?thesis by (simp add: parse_members.simps [of s])
        qed
      qed
    qed
  qed
qed

section \<open>The claims\<close>

lemmas adapter_defs = performResearch_def performGeminiResearch_def performOpenAIResearch_def
  research_catch_def gemini_catch_def errorMessage_def Error_def TypeError_def or_else_def

subsection \<open>Malformed provider output\<close>

text \<open>
  C3. On the Gemini path, when the text of the provider's response is not valid JSON,
  \<^verbatim>\<open>performResearch\<close> rejects with an error whose message is the inner parse message
  wrapped twice: by the catch of \<^verbatim>\<open>performGeminiResearch\<close> and by the catch of
  \<^verbatim>\<open>performResearch\<close>.
\<close>

theorem gemini_invalid_json_rejected:
  assumes "provider c \<noteq> ''openai''"
    and "generateContent h (gemini_request_of c) = Inr \<lparr> response_text = Inr txt \<rparr>"
    and "JSON_parse txt = None"
  shows "snd (performResearch h c) =
    Inl (Error ''API Error: Gemini API Error: Failed to parse Gemini response. The model did not return valid JSON.'')"
  using assms by (simp add: adapter_defs)

lemma fenced_not_json: \<open>JSON_parse ''```json\<newline>{"answer":"x"}\<newline>```'' = None\<close>
  by code_simp

theorem gemini_invalid_json_rejected_witness:
  \<open>provider (app_config ''gemini'' ''q'') \<noteq> ''openai'' \<and>
   generateContent (gemini_returns ''```json\<newline>{"answer":"x"}\<newline>```'')
       (gemini_request_of (app_config ''gemini'' ''q''))
     = Inr \<lparr> response_text = Inr ''```json\<newline>{"answer":"x"}\<newline>```'' \<rparr> \<and>
   JSON_parse ''```json\<newline>{"answer":"x"}\<newline>```'' = None \<and>
   snd (performResearch (gemini_returns ''```json\<newline>{"answer":"x"}\<newline>```'')
          (app_config ''gemini'' ''q'')) =
     Inl (Error ''API Error: Gemini API Error: Failed to parse Gemini response. The model did not return valid JSON.'')\<close>
proof -
  have p: "provider (app_config ''gemini'' ''q'') \<noteq> ''openai''"
    by (simp add: app_config_def)
  have g: \<open>generateContent (gemini_returns ''```json\<newline>{"answer":"x"}\<newline>```'')
              (gemini_request_of (app_config ''gemini'' ''q''))
            = Inr \<lparr> response_text = Inr ''```json\<newline>{"answer":"x"}\<newline>```'' \<rparr>\<close>
    by (simp add: gemini_returns_def)
  show ?thesis
    using gemini_invalid_json_rejected [OF p g fenced_not_json] p g fenced_not_json by simp
qed

text \<open>
  C4. On the OpenAI path, when the message of the first choice has no function call,
  \<^verbatim>\<open>performResearch\<close> rejects with the message \<^verbatim>\<open>No response received from the model\<close>
  behind the prefix \<^verbatim>\<open>API Error: \<close>.
\<close>

theorem openai_missing_function_call_rejected:
  assumes "provider c = ''openai''"
    and "chat_completions_create h (openai_request_of c) = Inr response"
    and "choices response = choice # rest"
    and "function_call (message choice) = None"
  shows "snd (performResearch h c) = Inl (Error ''API Error: No response received from the model'')"
  using assms by (simp add: adapter_defs)

theorem openai_missing_function_call_rejected_witness:
  "provider (app_config ''openai'' ''q'') = ''openai'' \<and>
   chat_completions_create (openai_returns None) (openai_request_of (app_config ''openai'' ''q''))
     = Inr \<lparr> choices = [\<lparr> message = \<lparr> function_call = None \<rparr> \<rparr>] \<rparr> \<and>
   choices \<lparr> choices = [\<lparr> message = \<lparr> function_call = None \<rparr> \<rparr>] \<rparr>
     = \<lparr> message = \<lparr> function_call = None \<rparr> \<rparr> # [] \<and>
   function_call (message \<lparr> message = \<lparr> function_call = None \<rparr> \<rparr>) = None \<and>
   snd (performResearch (openai_returns None) (app_config ''openai'' ''q'')) =
     Inl (Error ''API Error: No response received from the model'')"
proof -
  have p: "provider (app_config ''openai'' ''q'') = ''openai''"
    by (simp add: app_config_def)
  have r: "chat_completions_create (openai_returns None) (openai_request_of (app_config ''openai'' ''q''))
     = Inr \<lparr> choices = [\<lparr> message = \<lparr> function_call = None \<rparr> \<rparr>] \<rparr>"
    by (simp add: openai_returns_def)
  have ch: "choices \<lparr> choices = [\<lparr> message = \<lparr> function_call = None \<rparr> \<rparr>] \<rparr>
     = \<lparr> message = \<lparr> function_call = None \<rparr> \<rparr> # []"
    by simp
  have f: "function_call (message \<lparr> message = \<lparr> function_call = None \<rparr> \<rparr>) = None"
    by simp
  show ?thesis
    using openai_missing_function_call_rejected [OF p r ch f] p r ch f by simp
qed

text \<open>
  C5. On the OpenAI path, when the function call is there and its arguments are not valid
  JSON, \<^verbatim>\<open>performResearch\<close> rejects with the message \<^verbatim>\<open>Failed to parse model response\<close>
  behind the prefix \<^verbatim>\<open>API Error: \<close>, and resolves to nothing.
\<close>

theorem openai_invalid_arguments_rejected:
  assumes "provider c = ''openai''"
    and "chat_completions_create h (openai_request_of c) = Inr response"
    and "choices response = choice # rest"
    and "function_call (message choice) = Some functionCall"
    and "JSON_parse (arguments functionCall) = None"
  shows "snd (performResearch h c) = Inl (Error ''API Error: Failed to parse model response'') \<and>
    (\<forall>v. snd (performResearch h c) \<noteq> Inr v)"
  using assms by (simp add: adapter_defs)

lemma truncated_not_json: \<open>JSON_parse ''{"answer": "x", "followUpQuestions": ["y"'' = None\<close>
  by code_simp

theorem openai_invalid_arguments_rejected_witness:
  \<open>provider (app_config ''openai'' ''q'') = ''openai'' \<and>
   chat_completions_create
       (openai_returns (Some \<lparr> arguments = ''{"answer": "x", "followUpQuestions": ["y"'' \<rparr>))
       (openai_request_of (app_config ''openai'' ''q''))
     = Inr \<lparr> choices = [\<lparr> message = \<lparr> function_call =
         Some \<lparr> arguments = ''{"answer": "x", "followUpQuestions": ["y"'' \<rparr> \<rparr> \<rparr>] \<rparr> \<and>
   JSON_parse ''{"answer": "x", "followUpQuestions": ["y"'' = None \<and>
   snd (performResearch
          (openai_returns (Some \<lparr> arguments = ''{"answer": "x", "followUpQuestions": ["y"'' \<rparr>))
          (app_config ''openai'' ''q'')) =
     Inl (Error ''API Error: Failed to parse model response'')\<close>
proof -
  have p: "provider (app_config ''openai'' ''q'') = ''openai''"
    by (simp add: app_config_def)
  have r: \<open>chat_completions_create
       (openai_returns (Some \<lparr> arguments = ''{"answer": "x", "followUpQuestions": ["y"'' \<rparr>))
       (openai_request_of (app_config ''openai'' ''q''))
     = Inr \<lparr> choices = [\<lparr> message = \<lparr> function_call =
         Some \<lparr> arguments = ''{"answer": "x", "followUpQuestions": ["y"'' \<rparr> \<rparr> \<rparr>] \<rparr>\<close>
    by (simp add: openai_returns_def)
  have ch: \<open>choices \<lparr> choices = [\<lparr> message = \<lparr> function_call =
         Some \<lparr> arguments = ''{"answer": "x", "followUpQuestions": ["y"'' \<rparr> \<rparr> \<rparr>] \<rparr>
     = \<lparr> message = \<lparr> function_call =
         Some \<lparr> arguments = ''{"answer": "x", "followUpQuestions": ["y"'' \<rparr> \<rparr> \<rparr> # []\<close>
    by simp
  have f: \<open>function_call (message \<lparr> message = \<lparr> function_call =
         Some \<lparr> arguments = ''{"answer": "x", "followUpQuestions": ["y"'' \<rparr> \<rparr> \<rparr>)
     = Some \<lparr> arguments = ''{"answer": "x", "followUpQuestions": ["y"'' \<rparr>\<close>
    by simp
  have a: \<open>JSON_parse (arguments \<lparr> arguments = ''{"answer": "x", "followUpQuestions": ["y"'' \<rparr>) = None\<close>
    using truncated_not_json by simp
  show ?thesis
    using openai_invalid_arguments_rejected [OF p r ch f a] p r truncated_not_json
    by simp
qed

subsection \<open>Well-formed provider output\<close>

lemma example_parses:
  \<open>JSON_parse ''{"answer":"x","followUpQuestions":["y"],"confidence":0.9}'' =
     Some (JObj [(''answer'', JStr ''x''), (''followUpQuestions'', JArr [JStr ''y'']),
                 (''confidence'', JNum (9 / 10))])\<close>
  by code_simp

text \<open>
  C6. On the Gemini path, when the text of the response is exactly
  \<^verbatim>\<open>{"answer":"x","followUpQuestions":["y"],"confidence":0.9}\<close>, \<^verbatim>\<open>performResearch\<close>
  resolves to the object with that answer, those follow-up questions, that confidence and
  the query of the request.
\<close>

theorem gemini_example_resolves:
  assumes "provider c \<noteq> ''openai''"
    and \<open>generateContent h (gemini_request_of c) =
           Inr \<lparr> response_text = Inr ''{"answer":"x","followUpQuestions":["y"],"confidence":0.9}'' \<rparr>\<close>
  shows "snd (performResearch h c) =
    Inr (JObj [(''query'', JStr (query c)), (''answer'', JStr ''x''),
               (''followUpQuestions'', JArr [JStr ''y'']), (''confidence'', JNum (9 / 10))])"
  using assms by (simp add: adapter_defs example_parses spread_result_def set_props_def)

theorem gemini_example_resolves_witness:
  \<open>provider (app_config ''gemini'' ''What is HOL?'') \<noteq> ''openai'' \<and>
   generateContent (gemini_returns ''{"answer":"x","followUpQuestions":["y"],"confidence":0.9}'')
       (gemini_request_of (app_config ''gemini'' ''What is HOL?'')) =
     Inr \<lparr> response_text = Inr ''{"answer":"x","followUpQuestions":["y"],"confidence":0.9}'' \<rparr> \<and>
   snd (performResearch (gemini_returns ''{"answer":"x","followUpQuestions":["y"],"confidence":0.9}'')
          (app_config ''gemini'' ''What is HOL?'')) =
     Inr (JObj [(''query'', JStr ''What is HOL?''), (''answer'', JStr ''x''),
                (''followUpQuestions'', JArr [JStr ''y'']), (''confidence'', JNum (9 / 10))])\<close>
proof -
  have p: "provider (app_config ''gemini'' ''What is HOL?'') \<noteq> ''openai''"
    by (simp add: app_config_def)
  have g: \<open>generateContent (gemini_returns ''{"answer":"x","followUpQuestions":["y"],"confidence":0.9}'')
       (gemini_request_of (app_config ''gemini'' ''What is HOL?'')) =
     Inr \<lparr> response_text = Inr ''{"answer":"x","followUpQuestions":["y"],"confidence":0.9}'' \<rparr>\<close>
    by (simp add: gemini_returns_def)
  have q: "query (app_config ''gemini'' ''What is HOL?'') = ''What is HOL?''"
    by (simp add: app_config_def)
  show ?thesis
    using gemini_example_resolves [OF p g] p g q by simp
qed

text \<open>
  Keys and values of \<open>set_props\<close>: the keys are those of both lists, and the value under a
  key is the last one the new list gives it, else the old one.
\<close>

lemma map_fst_set_prop:
  "map fst (set_prop k v ps) = (if k \<in> fst ` set ps then map fst ps else map fst ps @ [k])"
  by (induction ps) force+

lemma set_prop_keys: "fst ` set (set_prop k v ps) = insert k (fst ` set ps)"
proof -
  have "set (map fst (set_prop k v ps)) = insert k (set (map fst ps))"
    by (simp only: map_fst_set_prop) auto
  then show ?thesis by simp
qed

lemma set_props_keys: "fst ` set (set_props ps new) = fst ` set ps \<union> fst ` set new"
  unfolding set_props_def
proof (induction new arbitrary: ps)
  case Nil
  then show ?case by simp
next
  case (Cons a new)
  obtain k v where a: "a = (k, v)" by (cases a)
  show ?case
    by (simp add: Cons.IH a set_prop_keys)
qed

lemma lookup_set_prop: "lookup k (set_prop k' v ps) = (if k = k' then v else lookup k ps)"
  by (induction ps) auto

lemma lookup_set_props:
  "lookup k (set_props ps new) = (case map_of (rev new) k of Some x \<Rightarrow> x | None \<Rightarrow> lookup k ps)"
  unfolding set_props_def
proof (induction new arbitrary: ps)
  case Nil
  then show ?case by simp
next
  case (Cons a new)
  obtain k' v where a: "a = (k', v)" by (cases a)
  show ?case
    by (simp add: Cons.IH a lookup_set_prop map_add_def split: option.splits)
qed

text \<open>
  C9. Whatever value the provider's payload parses to, \<^verbatim>\<open>performResearch\<close> resolves to the
  spread of that value over the query, on both paths, with no check of its shape: the keys
  of the result are \<^verbatim>\<open>query\<close> and the keys of the parsed value, each with the value the
  parsed value gives it; a key the parsed value lacks is absent (\<^verbatim>\<open>undefined\<close> when read).
\<close>

theorem parsed_value_spread_unvalidated:
  assumes "JSON_parse txt = Some v"
  shows
    "(provider c \<noteq> ''openai'' \<and>
      generateContent h (gemini_request_of c) = Inr \<lparr> response_text = Inr txt \<rparr>
        \<longrightarrow> snd (performResearch h c) = Inr (spread_result (query c) v)) \<and>
     (provider c = ''openai'' \<and>
      chat_completions_create h (openai_request_of c) =
        Inr \<lparr> choices = \<lparr> message = \<lparr> function_call = Some \<lparr> arguments = txt \<rparr> \<rparr> \<rparr> # rest \<rparr>
        \<longrightarrow> snd (performResearch h c) = Inr (spread_result (query c) v)) \<and>
     (\<exists>ps. spread_result (query c) v = JObj ps \<and>
        set (map fst ps) = insert ''query'' (set (map fst (own_props v))) \<and>
        (\<forall>k. lookup k ps =
           (case map_of (rev (own_props v)) k of
              Some x \<Rightarrow> x
            | None \<Rightarrow> if k = ''query'' then JStr (query c) else JUndefined)))"
proof (intro conjI impI)
  assume "provider c \<noteq> ''openai'' \<and>
      generateContent h (gemini_request_of c) = Inr \<lparr> response_text = Inr txt \<rparr>"
  with assms show "snd (performResearch h c) = Inr (spread_result (query c) v)"
    by (simp add: adapter_defs)
next
  assume "provider c = ''openai'' \<and>
      chat_completions_create h (openai_request_of c) =
        Inr \<lparr> choices = \<lparr> message = \<lparr> function_call = Some \<lparr> arguments = txt \<rparr> \<rparr> \<rparr> # rest \<rparr>"
  with assms show "snd (performResearch h c) = Inr (spread_result (query c) v)"
    by (simp add: adapter_defs)
next
  show "\<exists>ps. spread_result (query c) v = JObj ps \<and>
        set (map fst ps) = insert ''query'' (set (map fst (own_props v))) \<and>
        (\<forall>k. lookup k ps =
           (case map_of (rev (own_props v)) k of
              Some x \<Rightarrow> x
            | None \<Rightarrow> if k = ''query'' then JStr (query c) else JUndefined))"
    by (auto simp: spread_result_def set_props_keys lookup_set_props split: option.splits)
qed

lemma partial_parses:
  \<open>JSON_parse ''{"answer":42,"note":true}'' = Some (JObj [(''answer'', JNum 42), (''note'', JBool True)])\<close>
  by code_simp

theorem parsed_value_spread_unvalidated_witness:
  \<open>JSON_parse ''{"answer":42,"note":true}'' = Some (JObj [(''answer'', JNum 42), (''note'', JBool True)]) \<and>
   snd (performResearch (gemini_returns ''{"answer":42,"note":true}'') (app_config ''gemini'' ''q'')) =
     Inr (JObj [(''query'', JStr ''q''), (''answer'', JNum 42), (''note'', JBool True)]) \<and>
   snd (performResearch (openai_returns (Some \<lparr> arguments = ''{"answer":42,"note":true}'' \<rparr>))
          (app_config ''openai'' ''q'')) =
     Inr (JObj [(''query'', JStr ''q''), (''answer'', JNum 42), (''note'', JBool True)]) \<and>
   lookup ''confidence'' [(''query'', JStr ''q''), (''answer'', JNum 42), (''note'', JBool True)] = JUndefined\<close>
proof -
  have s: "spread_result ''q'' (JObj [(''answer'', JNum 42), (''note'', JBool True)]) =
      JObj [(''query'', JStr ''q''), (''answer'', JNum 42), (''note'', JBool True)]"
    by (simp add: spread_result_def set_props_def)
  have g: \<open>snd (performResearch (gemini_returns ''{"answer":42,"note":true}'') (app_config ''gemini'' ''q'')) =
     Inr (JObj [(''query'', JStr ''q''), (''answer'', JNum 42), (''note'', JBool True)])\<close>
    using parsed_value_spread_unvalidated [OF partial_parses,
        where c = "app_config ''gemini'' ''q''" and h = \<open>gemini_returns ''{"answer":42,"note":true}''\<close>] s
    by (simp add: app_config_def gemini_returns_def)
  have o: \<open>snd (performResearch (openai_returns (Some \<lparr> arguments = ''{"answer":42,"note":true}'' \<rparr>))
          (app_config ''openai'' ''q'')) =
     Inr (JObj [(''query'', JStr ''q''), (''answer'', JNum 42), (''note'', JBool True)])\<close>
    using parsed_value_spread_unvalidated [OF partial_parses,
        where c = "app_config ''openai'' ''q''"
          and h = \<open>openai_returns (Some \<lparr> arguments = ''{"answer":42,"note":true}'' \<rparr>)\<close>
          and rest = "[]"] s
    by (simp add: app_config_def openai_returns_def)
  show ?thesis using partial_parses g o by simp
qed

subsection \<open>Dispatch and unused fields\<close>

text \<open>
  C7. \<^verbatim>\<open>performResearch\<close> branches two ways on the provider: the string \<^verbatim>\<open>openai\<close> takes
  the OpenAI path, every other string the Gemini path. Exactly one request is issued, to
  the provider of the path taken, and the outcome is that path's, a thrown value passing
  through the catch.
\<close>

theorem provider_dispatch:
  "fst (performResearch h c) =
     (if provider c = ''openai'' then [OpenAI_create (openai_request_of c)]
      else [Gemini_generateContent (gemini_request_of c)]) \<and>
   snd (performResearch h c) =
     (case (if provider c = ''openai'' then snd (performOpenAIResearch h c)
            else snd (performGeminiResearch h c)) of
        Inl error \<Rightarrow> Inl (research_catch h error)
      | Inr v \<Rightarrow> Inr v)"
  by (simp add: performResearch_def performOpenAIResearch_def performGeminiResearch_def Let_def)

theorem provider_dispatch_witness:
  "fst (performResearch (openai_returns None) (app_config ''openai'' ''q'')) =
     [OpenAI_create (openai_request_of (app_config ''openai'' ''q''))] \<and>
   fst (performResearch (gemini_returns ''{}'') (app_config ''gemini'' ''q'')) =
     [Gemini_generateContent (gemini_request_of (app_config ''gemini'' ''q''))] \<and>
   fst (performResearch (gemini_returns ''{}'') (app_config ''OpenAI'' ''q'')) =
     [Gemini_generateContent (gemini_request_of (app_config ''OpenAI'' ''q''))] \<and>
   fst (performResearch (gemini_returns ''{}'') (app_config [] ''q'')) =
     [Gemini_generateContent (gemini_request_of (app_config [] ''q''))]"
  using provider_dispatch [of "openai_returns None" "app_config ''openai'' ''q''"]
    provider_dispatch [of "gemini_returns ''{}''" "app_config ''gemini'' ''q''"]
    provider_dispatch [of "gemini_returns ''{}''" "app_config ''OpenAI'' ''q''"]
    provider_dispatch [of "gemini_returns ''{}''" "app_config [] ''q''"]
  by (simp add: app_config_def)

text \<open>
  C8. Two requests that differ in \<^verbatim>\<open>maxDepth\<close> and \<^verbatim>\<open>maxBranches\<close> only give the same
  provider calls and, with the same providers, the same outcome.
\<close>

theorem depth_and_branches_unused:
  assumes "apiKey c' = apiKey c" and "provider c' = provider c" and "model c' = model c"
    and "temperature c' = temperature c" and "query c' = query c"
  shows "performResearch h c' = performResearch h c"
  unfolding performResearch_def performOpenAIResearch_def performGeminiResearch_def
    openai_request_of_def gemini_request_of_def assms
  by (rule refl)

theorem depth_and_branches_unused_witness:
  "apiKey (app_config ''gemini'' ''q'' \<lparr> maxDepth := 5, maxBranches := 1 \<rparr>) = apiKey (app_config ''gemini'' ''q'') \<and>
   provider (app_config ''gemini'' ''q'' \<lparr> maxDepth := 5, maxBranches := 1 \<rparr>) = provider (app_config ''gemini'' ''q'') \<and>
   model (app_config ''gemini'' ''q'' \<lparr> maxDepth := 5, maxBranches := 1 \<rparr>) = model (app_config ''gemini'' ''q'') \<and>
   temperature (app_config ''gemini'' ''q'' \<lparr> maxDepth := 5, maxBranches := 1 \<rparr>) = temperature (app_config ''gemini'' ''q'') \<and>
   query (app_config ''gemini'' ''q'' \<lparr> maxDepth := 5, maxBranches := 1 \<rparr>) = query (app_config ''gemini'' ''q'') \<and>
   app_config ''gemini'' ''q'' \<lparr> maxDepth := 5, maxBranches := 1 \<rparr> \<noteq> app_config ''gemini'' ''q'' \<and>
   performResearch (gemini_returns ''{}'') (app_config ''gemini'' ''q'' \<lparr> maxDepth := 5, maxBranches := 1 \<rparr>) =
     performResearch (gemini_returns ''{}'') (app_config ''gemini'' ''q'')"
proof -
  have d: "app_config ''gemini'' ''q'' \<lparr> maxDepth := 5, maxBranches := 1 \<rparr> \<noteq> app_config ''gemini'' ''q''"
    by (simp add: app_config_def)
  show ?thesis
    using depth_and_branches_unused [of "app_config ''gemini'' ''q'' \<lparr> maxDepth := 5, maxBranches := 1 \<rparr>"
        "app_config ''gemini'' ''q''" "gemini_returns ''{}''"] d
    by simp
qed

subsection \<open>The message of a rejection\<close>

lemma get_prop_not_nullish: "\<not> nullish e \<Longrightarrow> get_prop e k = Inr (get_prop_opt e k)"
  by (cases e) simp_all

text \<open>
  C10, as amended. When the selected path throws a value other than \<^verbatim>\<open>undefined\<close> and
  \<^verbatim>\<open>null\<close>: if neither its nested \<^verbatim>\<open>error.message\<close> nor its \<^verbatim>\<open>message\<close> is truthy (both
  absent, for one), the rejection message is exactly \<^verbatim>\<open>API Error: Unknown error occurred\<close>;
  a truthy nested \<^verbatim>\<open>error.message\<close> is the one reported, as a string, whatever \<^verbatim>\<open>message\<close>
  holds; and when the nested one is falsy, a truthy \<^verbatim>\<open>message\<close> is reported.
\<close>

theorem catch_message_selection:
  assumes "(if provider c = ''openai'' then snd (performOpenAIResearch h c)
            else snd (performGeminiResearch h c)) = Inl e"
    and "\<not> nullish e"
  shows
    "(\<not> truthy (get_prop_opt (get_prop_opt e ''error'') ''message'') \<and>
      \<not> truthy (get_prop_opt e ''message'')
        \<longrightarrow> snd (performResearch h c) = Inl (Error ''API Error: Unknown error occurred'')) \<and>
     (\<forall>s. truthy (get_prop_opt (get_prop_opt e ''error'') ''message'') \<and>
          ToString (Number_toString h) (get_prop_opt (get_prop_opt e ''error'') ''message'') = Inr s
        \<longrightarrow> snd (performResearch h c) = Inl (Error (''API Error: '' @ s))) \<and>
     (\<forall>s. \<not> truthy (get_prop_opt (get_prop_opt e ''error'') ''message'') \<and>
          truthy (get_prop_opt e ''message'') \<and>
          ToString (Number_toString h) (get_prop_opt e ''message'') = Inr s
        \<longrightarrow> snd (performResearch h c) = Inl (Error (''API Error: '' @ s)))"
proof -
  have r: "snd (performResearch h c) = Inl (research_catch h e)"
    using assms(1)
    by (cases "provider c = ''openai''")
       (simp_all add: performResearch_def split_beta Let_def)
  show ?thesis
    unfolding r
    by (simp add: research_catch_def errorMessage_def get_prop_not_nullish [OF assms(2)]
        or_else_def Error_def)
qed

theorem catch_message_selection_witness:
  "snd (performOpenAIResearch (openai_throws (JObj [])) (app_config ''openai'' ''q'')) = Inl (JObj []) \<and>
   \<not> nullish (JObj []) \<and>
   snd (performResearch (openai_throws (JObj [])) (app_config ''openai'' ''q'')) =
     Inl (Error ''API Error: Unknown error occurred'') \<and>
   snd (performOpenAIResearch
          (openai_throws (JObj [(''error'', JObj [(''message'', JStr ''quota exceeded'')]),
                                (''message'', JStr ''429'')]))
          (app_config ''openai'' ''q'')) =
     Inl (JObj [(''error'', JObj [(''message'', JStr ''quota exceeded'')]), (''message'', JStr ''429'')]) \<and>
   snd (performResearch
          (openai_throws (JObj [(''error'', JObj [(''message'', JStr ''quota exceeded'')]),
                                (''message'', JStr ''429'')]))
          (app_config ''openai'' ''q'')) =
     Inl (Error ''API Error: quota exceeded'')"
proof -
  have p: "provider (app_config ''openai'' ''q'') = ''openai''"
    by (simp add: app_config_def)
  have t1: "snd (performOpenAIResearch (openai_throws (JObj [])) (app_config ''openai'' ''q'')) = Inl (JObj [])"
    by (simp add: performOpenAIResearch_def openai_throws_def)
  have t2: "snd (performOpenAIResearch
          (openai_throws (JObj [(''error'', JObj [(''message'', JStr ''quota exceeded'')]),
                                (''message'', JStr ''429'')]))
          (app_config ''openai'' ''q'')) =
     Inl (JObj [(''error'', JObj [(''message'', JStr ''quota exceeded'')]), (''message'', JStr ''429'')])"
    by (simp add: performOpenAIResearch_def openai_throws_def)
  have n1: "\<not> nullish (JObj [])" by simp
  have n2: "\<not> nullish (JObj [(''error'', JObj [(''message'', JStr ''quota exceeded'')]), (''message'', JStr ''429'')])"
    by simp
  have h1: "(if provider (app_config ''openai'' ''q'') = ''openai''
             then snd (performOpenAIResearch (openai_throws (JObj [])) (app_config ''openai'' ''q''))
             else snd (performGeminiResearch (openai_throws (JObj [])) (app_config ''openai'' ''q''))) = Inl (JObj [])"
    using p t1 by simp
  have h2: "(if provider (app_config ''openai'' ''q'') = ''openai''
             then snd (performOpenAIResearch
                  (openai_throws (JObj [(''error'', JObj [(''message'', JStr ''quota exceeded'')]),
                                        (''message'', JStr ''429'')]))
                  (app_config ''openai'' ''q''))
             else snd (performGeminiResearch
                  (openai_throws (JObj [(''error'', JObj [(''message'', JStr ''quota exceeded'')]),
                                        (''message'', JStr ''429'')]))
                  (app_config ''openai'' ''q''))) =
       Inl (JObj [(''error'', JObj [(''message'', JStr ''quota exceeded'')]), (''message'', JStr ''429'')])"
    using p t2 by simp
  show ?thesis
    using catch_message_selection [OF h1 n1] catch_message_selection [OF h2 n2] t1 t2
    by simp
qed

text \<open>
  C10 as stated fails on a nested \<^verbatim>\<open>error.message\<close> that exists and is the empty string:
  it does not take precedence, \<^verbatim>\<open>||\<close> falls through to the top-level \<^verbatim>\<open>message\<close>.
\<close>

theorem empty_nested_message_counterexample:
  "get_prop_opt
     (get_prop_opt (JObj [(''error'', JObj [(''message'', JStr [])]), (''message'', JStr ''boom'')]) ''error'')
     ''message'' = JStr [] \<and>
   snd (performResearch
          (openai_throws (JObj [(''error'', JObj [(''message'', JStr [])]), (''message'', JStr ''boom'')]))
          (app_config ''openai'' ''q'')) =
     Inl (Error ''API Error: boom'') \<and>
   snd (performResearch
          (openai_throws (JObj [(''error'', JObj [(''message'', JStr [])]), (''message'', JStr ''boom'')]))
          (app_config ''openai'' ''q'')) \<noteq>
     Inl (Error ''API Error: '')"
  by (simp add: adapter_defs openai_throws_def app_config_def)

text \<open>
  A thrown \<^verbatim>\<open>undefined\<close> has neither field either, and is outside the statement above:
  reading \<^verbatim>\<open>error.error\<close> throws inside the catch, so the rejection is that
  \<^verbatim>\<open>TypeError\<close>, without the prefix.
\<close>

lemma thrown_undefined_rethrows:
  "snd (performResearch (openai_throws JUndefined) (app_config ''openai'' ''q'')) =
     Inl (TypeError ''Cannot read properties of undefined (reading 'error')'') \<and>
   snd (performResearch (openai_throws JUndefined) (app_config ''openai'' ''q'')) \<noteq>
     Inl (Error ''API Error: Unknown error occurred'')"
  by (simp add: adapter_defs openai_throws_def app_config_def)

subsection \<open>Where the code departs from the claims\<close>

text \<open>
  C1. The claim: the resolved object's \<^verbatim>\<open>query\<close> is the request's, also when the parsed
  object has a \<^verbatim>\<open>query\<close> key. The code writes \<^verbatim>\<open>query: config.query\<close> before the spread,
  so a \<^verbatim>\<open>query\<close> of the parsed object replaces it, on both paths.
\<close>

theorem model_query_overrides_config:
  \<open>snd (performResearch
          (gemini_returns ''{"query":"injected","answer":"x","followUpQuestions":[],"confidence":1}'')
          (app_config ''gemini'' ''asked'')) =
     Inr (JObj [(''query'', JStr ''injected''), (''answer'', JStr ''x''),
                (''followUpQuestions'', JArr []), (''confidence'', JNum 1)]) \<and>
   snd (performResearch
          (openai_returns (Some \<lparr> arguments =
             ''{"query":"injected","answer":"x","followUpQuestions":[],"confidence":1}'' \<rparr>))
          (app_config ''openai'' ''asked'')) =
     Inr (JObj [(''query'', JStr ''injected''), (''answer'', JStr ''x''),
                (''followUpQuestions'', JArr []), (''confidence'', JNum 1)])\<close>
proof -
  have j: \<open>JSON_parse ''{"query":"injected","answer":"x","followUpQuestions":[],"confidence":1}'' =
      Some (JObj [(''query'', JStr ''injected''), (''answer'', JStr ''x''),
                  (''followUpQuestions'', JArr []), (''confidence'', JNum 1)])\<close>
    by code_simp
  show ?thesis
    by (simp add: adapter_defs gemini_returns_def openai_returns_def app_config_def j
        spread_result_def set_props_def)
qed

text \<open>Without a \<^verbatim>\<open>query\<close> key in the parsed value, the request's query stays.\<close>

lemma query_kept_without_model_query:
  assumes "''query'' \<notin> fst ` set (own_props v)"
  shows "get_prop_opt (spread_result q v) ''query'' = JStr q"
proof -
  have "map_of (rev (own_props v)) ''query'' = None"
    using assms by (simp add: map_of_eq_None_iff)
  then show ?thesis
    by (simp add: spread_result_def lookup_set_props)
qed

text \<open>
  C2. The claim: a temperature that is provided, \<^verbatim>\<open>0\<close> included, reaches the Gemini
  generation parameters unchanged. Under \<^verbatim>\<open>config.temperature || 0.7\<close> the value \<^verbatim>\<open>0\<close> is
  falsy, and \<^verbatim>\<open>0.7\<close> is sent in its place.
\<close>

theorem zero_temperature_replaced:
  "fst (performResearch h (app_config ''gemini'' ''q'' \<lparr> temperature := Some 0 \<rparr>)) =
     [Gemini_generateContent (gemini_request_of (app_config ''gemini'' ''q'' \<lparr> temperature := Some 0 \<rparr>))] \<and>
   gc_temperature (generationConfig
       (gemini_request_of (app_config ''gemini'' ''q'' \<lparr> temperature := Some 0 \<rparr>))) = 7 / 10"
  by (simp add: performResearch_def performGeminiResearch_def gemini_request_of_def
      app_config_def num_or_def Let_def)

text \<open>What is sent in general: the temperature given unless it is absent or \<^verbatim>\<open>0\<close>.\<close>

lemma gemini_temperature:
  "gc_temperature (generationConfig (gemini_request_of c)) =
     (case temperature c of None \<Rightarrow> 7 / 10 | Some t \<Rightarrow> if t = 0 then 7 / 10 else t)"
  by (simp add: gemini_request_of_def num_or_def)

end
